theory Spec2Isabelle
  imports Complex_Main
begin

section \<open>JavaScript values read by the component\<close>

text \<open>
  The component \<open>App\<close> of \<open>src/unit_converter_frontend/src/App.js\<close>. A JavaScript string
  is modelled as a \<open>string\<close>; a unit read from the catalog, which is \<open>undefined\<close> when the
  array is read out of range, is a \<open>string option\<close> with \<open>None\<close> for \<open>undefined\<close>. A string
  is truthy when it is not empty, \<open>undefined\<close> is falsy.
\<close>

definition truthy :: "string \<Rightarrow> bool" where
  "truthy s = (s \<noteq> [])"

definition truthy_opt :: "string option \<Rightarrow> bool" where
  "truthy_opt v = (case v of None \<Rightarrow> False | Some s \<Rightarrow> truthy s)"

text \<open>\<open>a || b\<close> on values that may be undefined.\<close>

definition js_or :: "string option \<Rightarrow> string option \<Rightarrow> string option" where
  "js_or a b = (if truthy_opt a then a else b)"

text \<open>
  A value that comes out of a response body can be any JSON value, or \<open>undefined\<close> when
  a field is missing. A number is the number the parser produced (\<open>NaN\<close> cannot come
  from JSON, and a literal that overflows behaves here as any number that is not zero).
  The component stores such a value in its state \<open>error\<close>.
\<close>

datatype jsval =
    JUndefined
  | JNull
  | JBool bool
  | JNum real
  | JStr string
  | JArr "jsval list"
  | JObj "(string \<times> jsval) list"

text \<open>Truthiness: \<open>undefined\<close>, \<open>null\<close>, \<open>false\<close>, \<open>0\<close> and \<open>''\<close> are falsy, every array
  and every object is truthy.\<close>

fun truthy_val :: "jsval \<Rightarrow> bool" where
  "truthy_val JUndefined = False"
| "truthy_val JNull = False"
| "truthy_val (JBool b) = b"
| "truthy_val (JNum x) = (x \<noteq> 0)"
| "truthy_val (JStr s) = truthy s"
| "truthy_val (JArr xs) = True"
| "truthy_val (JObj kvs) = True"

text \<open>\<open>a || 'literal'\<close> on a value of a response body.\<close>

definition js_or_val :: "jsval \<Rightarrow> string \<Rightarrow> jsval" where
  "js_or_val a d = (if truthy_val a then a else JStr d)"

text \<open>
  What React accepts as a child of an element: text, numbers, and the values that draw
  nothing (\<open>undefined\<close>, \<open>null\<close>, booleans); an array when each of its elements is
  accepted; never an object parsed from JSON (\<open>Objects are not valid as a React child\<close>).
\<close>

fun validChild :: "jsval \<Rightarrow> bool" where
  "validChild (JObj kvs) = False"
| "validChild (JArr xs) = list_all validChild xs"
| "validChild v = True"

text \<open>\<open>xs[i]\<close>: an array read out of range gives \<open>undefined\<close>.\<close>

definition js_index :: "'a list \<Rightarrow> nat \<Rightarrow> 'a option" where
  "js_index xs i = (if i < length xs then Some (xs ! i) else None)"

text \<open>A value inside a template literal: \<open>undefined\<close> prints as the word.\<close>

definition to_text :: "string option \<Rightarrow> string" where
  "to_text v = (case v of None \<Rightarrow> ''undefined'' | Some s \<Rightarrow> s)"

text \<open>\<open>xs.slice(0, n)\<close>.\<close>

definition slice0 :: "nat \<Rightarrow> 'a list \<Rightarrow> 'a list" where
  "slice0 n xs = take n xs"

text \<open>The exceptions that the component can meet; the last is the error React throws
  for a child it does not accept.\<close>

datatype js_error = TypeError | SyntaxError | InvalidReactChild

section \<open>The unit label: \<open>formatUnit\<close>\<close>

text \<open>
  \<open>unit.replace(/_/g, ' ').replace(/\b([a-z])/g, c => c.toUpperCase())\<close>.
  Without the \<open>u\<close> and \<open>i\<close> flags the word characters of \<open>\b\<close> are \<open>[A-Za-z0-9_]\<close>.
  The pattern \<open>\b([a-z])\<close> matches a lower-case ASCII letter that starts the string or
  follows a character that is not a word character; the matches are found in the string
  as it was before any replacement. Characters outside ASCII are neither word characters
  nor letters of \<open>[a-z]\<close>, so they pass through unchanged.
\<close>

definition isLower :: "char \<Rightarrow> bool" where
  "isLower c = (97 \<le> (of_char c :: nat) \<and> (of_char c :: nat) \<le> 122)"

definition isWordChar :: "char \<Rightarrow> bool" where
  "isWordChar c =
     (let n = (of_char c :: nat)
      in (97 \<le> n \<and> n \<le> 122) \<or> (65 \<le> n \<and> n \<le> 90) \<or> (48 \<le> n \<and> n \<le> 57) \<or> n = 95)"

text \<open>\<open>c.toUpperCase()\<close> on a match of \<open>[a-z]\<close>.\<close>

definition toUpperCase :: "char \<Rightarrow> char" where
  "toUpperCase c = (if isLower c then char_of ((of_char c :: nat) - 32) else c)"

definition replaceUnderscores :: "string \<Rightarrow> string" where
  "replaceUnderscores u = map (\<lambda>c. if c = CHR ''_'' then CHR '' '' else c) u"

text \<open>The flag says whether the character before the current one is a word character.\<close>

fun capitalizeFrom :: "bool \<Rightarrow> string \<Rightarrow> string" where
  "capitalizeFrom prev [] = []"
| "capitalizeFrom prev (c # cs) =
     (if \<not> prev \<and> isLower c then toUpperCase c else c) # capitalizeFrom (isWordChar c) cs"

definition capitalizeWords :: "string \<Rightarrow> string" where
  "capitalizeWords u = capitalizeFrom False u"

definition formatUnit :: "string option \<Rightarrow> string" where
  "formatUnit unit =
     (if \<not> truthy_opt unit then []
      else capitalizeWords (replaceUnderscores (to_text unit)))"

section \<open>The history ledger\<close>

record history_entry =
  entry_category :: string
  entry_value :: string
  entry_fromUnit :: "string option"
  entry_toUnit :: "string option"
  entry_result :: string
  entry_timestamp :: nat

text \<open>The updater \<open>hist => [entry, ...hist.slice(0, 9)]\<close> given to \<open>setHistory\<close>.\<close>

definition record_entry :: "'a \<Rightarrow> 'a list \<Rightarrow> 'a list" where
  "record_entry e hist = e # slice0 9 hist"

fun record_all :: "'a list \<Rightarrow> 'a list \<Rightarrow> 'a list" where
  "record_all hist [] = hist"
| "record_all hist (e # es) = record_all (record_entry e hist) es"

section \<open>The catalog and the unit selection\<close>

text \<open>\<open>staticConfig\<close>, in the order of its keys.\<close>

definition staticConfig :: "(string \<times> string list) list" where
  "staticConfig =
     [(''Length'', [''meter'', ''kilometer'', ''mile'', ''inch'', ''foot'']),
      (''Weight'', [''gram'', ''kilogram'', ''pound'', ''ounce'']),
      (''Temperature'', [''celsius'', ''fahrenheit'', ''kelvin'']),
      (''Speed'', [''meter_per_second'', ''kilometer_per_hour'', ''mile_per_hour'']),
      (''Currency'', [''USD'', ''EUR'', ''GBP'', ''JPY'', ''INR''])]"

text \<open>The options of the category selector:
  \<open>Object.keys(staticConfig).filter(cat => cat !== 'Currency')\<close>.\<close>

definition categoryOptions :: "string list" where
  "categoryOptions = filter (\<lambda>cat. cat \<noteq> ''Currency'') (map fst staticConfig)"

text \<open>The options of both unit selectors: \<open>staticConfig[category]\<close>.\<close>

definition unitOptions :: "string \<Rightarrow> string list" where
  "unitOptions cat = (case map_of staticConfig cat of None \<Rightarrow> [] | Some units \<Rightarrow> units)"

text \<open>The pair \<open>(units[0], units[1] || units[0])\<close> of the effect on \<open>category\<close>.\<close>

definition resolveUnits :: "string list \<Rightarrow> string option \<times> string option" where
  "resolveUnits units = (js_index units 0, js_or (js_index units 1) (js_index units 0))"

text \<open>\<open>staticConfig[category]\<close> is \<open>undefined\<close> for a key that is not in the catalog, and
  reading \<open>units[0]\<close> of it throws.\<close>

definition resolve :: "(string \<times> string list) list \<Rightarrow> string \<Rightarrow> js_error + string option \<times> string option" where
  "resolve cfg cat =
     (case map_of cfg cat of None \<Rightarrow> Inl TypeError | Some units \<Rightarrow> Inr (resolveUnits units))"

section \<open>The state of \<open>App\<close>\<close>

text \<open>
  One field for each \<open>useState\<close> of the component, with the initial value given there.
  The state \<open>value\<close> of the number input is the field \<open>value_in\<close>, the string the input
  holds. The last two
  fields are the requests that have been sent and not yet answered: each keeps what the
  closure of its handler captured and uses after the \<open>await\<close> (the target unit).
\<close>

record app_state =
  category :: string
  value_in :: string
  fromUnit :: "string option"
  toUnit :: "string option"
  result :: string
  error :: jsval
  isLoading :: bool
  enableCurrency :: bool
  currencyFrom :: string
  currencyTo :: string
  currencyValue :: string
  currencyResult :: string
  history :: "history_entry list"
  pendingConvert :: "string option list"
  pendingCurrency :: "string list"

definition initial :: app_state where
  "initial =
     \<lparr>category = ''Length'', value_in = [], fromUnit = Some ''meter'',
      toUnit = Some ''kilometer'', result = [], error = JStr [], isLoading = False,
      enableCurrency = False, currencyFrom = ''USD'', currencyTo = ''EUR'',
      currencyValue = [], currencyResult = [], history = [],
      pendingConvert = [], pendingCurrency = []\<rparr>"

section \<open>What the conversion service answers\<close>

text \<open>
  \<open>await fetch(...)\<close> rejects when the service cannot be reached; otherwise it gives a
  response with the flag \<open>res.ok\<close>. \<open>await res.json()\<close> rejects when the body is not JSON.
  A body that is the JSON value \<open>null\<close> parses, and reading a field of it throws. Of any
  other parsed body the handlers read \<open>data.detail\<close> (any JSON value, \<open>undefined\<close> when
  missing) and the text of \<open>data.result\<close> inside a template literal (the conversion of a
  number to text is left to the caller of the model).
\<close>

datatype body = Unparseable | JsonNull | JsonData (detail: jsval) (result_text: string)

datatype fetch_outcome = Rejected | Responded bool body

text \<open>What the part of a handler after the \<open>await\<close>s does before \<open>setIsLoading(false)\<close>:
  \<^item> the branch \<open>!res.ok\<close>: \<open>setError(message)\<close> and the result slot cleared;
  \<^item> the \<open>catch\<close> block: \<open>setError(message)\<close>;
  \<^item> the branch \<open>res.ok\<close>: the result slot set.\<close>

datatype settlement = ServiceError jsval | TransportError string | Success string

text \<open>
  The body of the \<open>try\<close> block of \<open>handleConvert\<close>; \<open>Inl\<close> is an exception thrown in it.
  A rejected \<open>fetch\<close> throws a \<open>TypeError\<close>, a body that is not JSON makes \<open>res.json()\<close>
  throw a \<open>SyntaxError\<close>, and \<open>data.detail\<close> or \<open>data.result\<close> of \<open>null\<close> throws a
  \<open>TypeError\<close>. The argument \<open>unit\<close> is \<open>toUnit\<close> as the handler captured it.
\<close>

definition convertTry :: "string option \<Rightarrow> fetch_outcome \<Rightarrow> js_error + settlement" where
  "convertTry unit r =
     (case r of
        Rejected \<Rightarrow> Inl TypeError
      | Responded ok b \<Rightarrow>
          (case b of
             Unparseable \<Rightarrow> Inl SyntaxError
           | JsonNull \<Rightarrow> Inl TypeError
           | JsonData d rt \<Rightarrow>
               if \<not> ok then Inr (ServiceError (js_or_val d ''Conversion failed.''))
               else Inr (Success (rt @ '' '' @ to_text unit))))"

text \<open>The \<open>try\<close> block with its \<open>catch\<close>, which takes every exception.\<close>

definition settleConvert :: "string option \<Rightarrow> fetch_outcome \<Rightarrow> settlement" where
  "settleConvert unit r =
     (case convertTry unit r of
        Inl err \<Rightarrow> TransportError ''Could not reach backend.''
      | Inr st \<Rightarrow> st)"

text \<open>The same for \<open>handleCurrencyConvert\<close>, with \<open>currencyTo\<close> as captured.\<close>

definition currencyTry :: "string \<Rightarrow> fetch_outcome \<Rightarrow> js_error + settlement" where
  "currencyTry cur r =
     (case r of
        Rejected \<Rightarrow> Inl TypeError
      | Responded ok b \<Rightarrow>
          (case b of
             Unparseable \<Rightarrow> Inl SyntaxError
           | JsonNull \<Rightarrow> Inl TypeError
           | JsonData d rt \<Rightarrow>
               if \<not> ok then Inr (ServiceError (js_or_val d ''Currency conversion failed.''))
               else Inr (Success (rt @ '' '' @ cur))))"

definition settleCurrency :: "string \<Rightarrow> fetch_outcome \<Rightarrow> settlement" where
  "settleCurrency cur r =
     (case currencyTry cur r of
        Inl err \<Rightarrow> TransportError ''Could not reach backend for currency.''
      | Inr st \<Rightarrow> st)"

section \<open>The handlers\<close>

text \<open>\<open>handleConvert\<close> up to its first \<open>await\<close>: three state updates and one request.\<close>

definition handleConvert_submit :: "app_state \<Rightarrow> app_state" where
  "handleConvert_submit s =
     s\<lparr>error := JStr [], result := [], isLoading := True,
       pendingConvert := pendingConvert s @ [toUnit s]\<rparr>"

text \<open>\<open>handleConvert\<close> after the \<open>await\<close>s, for the request at position \<open>i\<close>.\<close>

definition remove_at :: "nat \<Rightarrow> 'a list \<Rightarrow> 'a list" where
  "remove_at i xs = take i xs @ drop (Suc i) xs"

definition handleConvert_settle :: "nat \<Rightarrow> fetch_outcome \<Rightarrow> app_state \<Rightarrow> app_state" where
  "handleConvert_settle i r s =
     (let s1 = (case settleConvert (pendingConvert s ! i) r of
                  ServiceError m \<Rightarrow> s\<lparr>error := m, result := []\<rparr>
                | TransportError m \<Rightarrow> s\<lparr>error := JStr m\<rparr>
                | Success t \<Rightarrow> s\<lparr>result := t\<rparr>)
      in s1\<lparr>isLoading := False, pendingConvert := remove_at i (pendingConvert s)\<rparr>)"

definition handleCurrencyConvert_submit :: "app_state \<Rightarrow> app_state" where
  "handleCurrencyConvert_submit s =
     s\<lparr>currencyResult := [], error := JStr [], isLoading := True,
       pendingCurrency := pendingCurrency s @ [currencyTo s]\<rparr>"

definition handleCurrencyConvert_settle :: "nat \<Rightarrow> fetch_outcome \<Rightarrow> app_state \<Rightarrow> app_state" where
  "handleCurrencyConvert_settle i r s =
     (let s1 = (case settleCurrency (pendingCurrency s ! i) r of
                  ServiceError m \<Rightarrow> s\<lparr>error := m, currencyResult := []\<rparr>
                | TransportError m \<Rightarrow> s\<lparr>error := JStr m\<rparr>
                | Success t \<Rightarrow> s\<lparr>currencyResult := t\<rparr>)
      in s1\<lparr>isLoading := False, pendingCurrency := remove_at i (pendingCurrency s)\<rparr>)"

text \<open>The \<open>disabled\<close> attribute of the two submit buttons. The currency form is rendered
  only under \<open>enableCurrency\<close>.\<close>

definition convertDisabled :: "app_state \<Rightarrow> bool" where
  "convertDisabled s = (isLoading s \<or> \<not> truthy (value_in s))"

definition currencyDisabled :: "app_state \<Rightarrow> bool" where
  "currencyDisabled s = (isLoading s \<or> \<not> truthy (currencyValue s))"

section \<open>Events\<close>

text \<open>
  What can happen to the mounted component: the user changes a control or submits a form,
  or a request that is in flight is answered. An event the page does not offer (an option
  that is not in the selector, a submit through a disabled button or a form that is not
  rendered, an answer to a request that was never sent) leaves the state as it is.
\<close>

datatype event =
    SetCategory string
  | SetValue string
  | SetFromUnit string
  | SetToUnit string
  | SubmitConvert
  | ConvertAnswered nat fetch_outcome
  | SetEnableCurrency bool
  | SetCurrencyValue string
  | SetCurrencyFrom string
  | SetCurrencyTo string
  | SubmitCurrency
  | CurrencyAnswered nat fetch_outcome

fun handle :: "app_state \<Rightarrow> event \<Rightarrow> app_state" where
  "handle s (SetCategory c) = (if c \<in> set categoryOptions then s\<lparr>category := c\<rparr> else s)"
| "handle s (SetValue v) = s\<lparr>value_in := v\<rparr>"
| "handle s (SetFromUnit u) =
     (if u \<in> set (unitOptions (category s)) then s\<lparr>fromUnit := Some u\<rparr> else s)"
| "handle s (SetToUnit u) =
     (if u \<in> set (unitOptions (category s)) then s\<lparr>toUnit := Some u\<rparr> else s)"
| "handle s SubmitConvert = (if convertDisabled s then s else handleConvert_submit s)"
| "handle s (ConvertAnswered i r) =
     (if i < length (pendingConvert s) then handleConvert_settle i r s else s)"
| "handle s (SetEnableCurrency b) = s\<lparr>enableCurrency := b\<rparr>"
| "handle s (SetCurrencyValue v) =
     (if enableCurrency s then s\<lparr>currencyValue := v\<rparr> else s)"
| "handle s (SetCurrencyFrom c) =
     (if enableCurrency s \<and> c \<in> set (unitOptions ''Currency'') then s\<lparr>currencyFrom := c\<rparr> else s)"
| "handle s (SetCurrencyTo c) =
     (if enableCurrency s \<and> c \<in> set (unitOptions ''Currency'') then s\<lparr>currencyTo := c\<rparr> else s)"
| "handle s SubmitCurrency =
     (if \<not> enableCurrency s \<or> currencyDisabled s then s else handleCurrencyConvert_submit s)"
| "handle s (CurrencyAnswered i r) =
     (if i < length (pendingCurrency s) then handleCurrencyConvert_settle i r s else s)"

section \<open>The effects\<close>

text \<open>
  The updates of one handler run are applied together and the component renders once;
  then the effects whose dependency changed run, reading the values of that render.
  The effect on \<open>category\<close> sets both units; the effect on \<open>result\<close> adds to the history.
  Neither writes a dependency of an effect, so one round is all.
\<close>

definition categoryEffect :: "app_state \<Rightarrow> app_state \<Rightarrow> js_error + app_state" where
  "categoryEffect rendered s =
     (case resolve staticConfig (category rendered) of
        Inl e \<Rightarrow> Inl e
      | Inr (f, t) \<Rightarrow> Inr (s\<lparr>fromUnit := f, toUnit := t\<rparr>))"

definition historyGuard :: "app_state \<Rightarrow> bool" where
  "historyGuard r =
     (truthy (result r) \<and> truthy (value_in r) \<and> truthy_opt (fromUnit r) \<and> truthy_opt (toUnit r)
      \<and> \<not> truthy_val (error r) \<and> \<not> isLoading r \<and> category r \<noteq> ''Currency'')"

definition makeEntry :: "nat \<Rightarrow> app_state \<Rightarrow> history_entry" where
  "makeEntry now r =
     \<lparr>entry_category = category r, entry_value = value_in r, entry_fromUnit = fromUnit r,
      entry_toUnit = toUnit r, entry_result = result r, entry_timestamp = now\<rparr>"

definition historyEffect :: "nat \<Rightarrow> app_state \<Rightarrow> app_state \<Rightarrow> app_state" where
  "historyEffect now rendered s =
     (if historyGuard rendered
      then s\<lparr>history := record_entry (makeEntry now rendered) (history s)\<rparr>
      else s)"

text \<open>\<open>now\<close> is what \<open>Date.now()\<close> gives when the effects run.\<close>

definition commit :: "nat \<Rightarrow> app_state \<Rightarrow> app_state \<Rightarrow> js_error + app_state" where
  "commit now old rendered =
     (case (if category rendered \<noteq> category old then categoryEffect rendered rendered
            else Inr rendered) of
        Inl e \<Rightarrow> Inl e
      | Inr s1 \<Rightarrow>
          Inr (if result rendered \<noteq> result old then historyEffect now rendered s1 else s1))"

definition step :: "nat \<Rightarrow> app_state \<Rightarrow> event \<Rightarrow> js_error + app_state" where
  "step now s ev = commit now s (handle s ev)"

text \<open>
  Drawing the page from a state. The only expression of the markup that can throw is
  \<open>{error && <div className="error">{error}</div>}\<close>: a truthy \<open>error\<close> becomes a child
  of the \<open>div\<close>, and React throws when it is not a valid child.
\<close>

definition render :: "app_state \<Rightarrow> js_error + unit" where
  "render s =
     (if truthy_val (error s) \<and> \<not> validChild (error s) then Inl InvalidReactChild else Inr ())"

text \<open>
  A run of the component: events with the time at which each is handled. An exception
  thrown by an effect ends the run. \<open>run\<close> goes on from every state; \<open>runPage\<close> goes on
  only from a state whose page can be drawn, as the mounted component does (React
  unmounts it when drawing throws). The effects leave \<open>error\<close> as it is, so the page of
  the state after the effects throws exactly when the page before them does. Every run
  of \<open>runPage\<close> is a run of \<open>run\<close>.
\<close>

fun run :: "app_state \<Rightarrow> (nat \<times> event) list \<Rightarrow> js_error + app_state" where
  "run s [] = Inr s"
| "run s ((now, ev) # evs) =
     (case step now s ev of Inl e \<Rightarrow> Inl e | Inr s' \<Rightarrow> run s' evs)"

fun runPage :: "app_state \<Rightarrow> (nat \<times> event) list \<Rightarrow> js_error + app_state" where
  "runPage s [] = Inr s"
| "runPage s ((now, ev) # evs) =
     (case step now s ev of
        Inl e \<Rightarrow> Inl e
      | Inr s' \<Rightarrow> (case render s' of Inl e \<Rightarrow> Inl e | Inr u \<Rightarrow> runPage s' evs))"

text \<open>Mounting runs both effects once on the initial values.\<close>

definition mount :: "nat \<Rightarrow> js_error + app_state" where
  "mount now =
     (case categoryEffect initial initial of
        Inl e \<Rightarrow> Inl e
      | Inr s1 \<Rightarrow> Inr (historyEffect now initial s1))"

section \<open>Requests in flight\<close>

text \<open>At most one request is in flight, and the loading flag is set exactly while one is.\<close>

definition inFlightInv :: "app_state \<Rightarrow> bool" where
  "inFlightInv s =
     (length (pendingConvert s) + length (pendingCurrency s) \<le> 1
      \<and> (isLoading s \<longleftrightarrow> (pendingConvert s \<noteq> [] \<or> pendingCurrency s \<noteq> [])))"

section \<open>The state of each workflow\<close>

text \<open>The fields that only the standard workflow writes, and those that only the currency
  workflow writes. The fields \<open>error\<close> and \<open>isLoading\<close> are written by both.\<close>

definition convertSlots :: "app_state \<Rightarrow> string \<times> string \<times> string option \<times> string option \<times> string \<times> history_entry list \<times> string option list" where
  "convertSlots s =
     (category s, value_in s, fromUnit s, toUnit s, result s, history s, pendingConvert s)"

definition currencySlots :: "app_state \<Rightarrow> bool \<times> string \<times> string \<times> string \<times> string \<times> string list" where
  "currencySlots s =
     (enableCurrency s, currencyFrom s, currencyTo s, currencyValue s, currencyResult s,
      pendingCurrency s)"

text \<open>What each workflow shows of itself: its result slot, the error message and the
  loading flag.\<close>

definition convertView :: "app_state \<Rightarrow> string \<times> jsval \<times> bool" where
  "convertView s = (result s, error s, isLoading s)"

definition currencyView :: "app_state \<Rightarrow> string \<times> jsval \<times> bool" where
  "currencyView s = (currencyResult s, error s, isLoading s)"

text \<open>
  The request lifecycle that the specification describes once for both controllers, with
  the two generic messages as parameters: a rejected request, or a body that cannot be
  read, gives the transport message; a response that is not ok gives the detail of the
  service or else the fallback message; a response that is ok gives the result and the
  target unit. The handlers are compared with it below.
\<close>

definition requestLifecycle :: "string \<Rightarrow> string \<Rightarrow> string \<Rightarrow> fetch_outcome \<Rightarrow> settlement" where
  "requestLifecycle fallback transport unit r =
     (case r of
        Rejected \<Rightarrow> TransportError transport
      | Responded ok b \<Rightarrow>
          (case b of
             JsonData d rt \<Rightarrow>
               if ok then Success (rt @ '' '' @ unit) else ServiceError (js_or_val d fallback)
           | _ \<Rightarrow> TransportError transport))"

text \<open>A settlement applied to the view of a workflow, followed by \<open>setIsLoading(false)\<close>.\<close>

definition applySettlement :: "settlement \<Rightarrow> string \<times> jsval \<times> bool \<Rightarrow> string \<times> jsval \<times> bool" where
  "applySettlement st v =
     (case v of (res, err, loading) \<Rightarrow>
        (case st of
           ServiceError m \<Rightarrow> ([], m, False)
         | TransportError m \<Rightarrow> (res, JStr m, False)
         | Success t \<Rightarrow> (t, err, False)))"

section \<open>Properties of \<open>formatUnit\<close>\<close>

lemma of_char_toUpperCase:
  assumes "isLower c"
  shows "(of_char (toUpperCase c) :: nat) = of_char c - 32"
proof -
  define n where "n = (of_char c :: nat)"
  from assms have "97 \<le> n" "n \<le> 122" by (simp_all add: isLower_def n_def)
  then have "(n - 32) mod 256 = n - 32" by simp
  with assms show ?thesis by (simp add: toUpperCase_def n_def)
qed

lemma toUpperCase_not_lower:
  assumes "isLower c"
  shows "\<not> isLower (toUpperCase c)"
proof -
  define n where "n = (of_char c :: nat)"
  from assms have "97 \<le> n" "n \<le> 122" by (simp_all add: isLower_def n_def)
  then have "\<not> 97 \<le> n - 32" by arith
  then show ?thesis by (simp add: isLower_def of_char_toUpperCase [OF assms] n_def)
qed

lemma toUpperCase_word:
  assumes "isLower c"
  shows "isWordChar (toUpperCase c) = isWordChar c"
proof -
  define n where "n = (of_char c :: nat)"
  from assms have b: "97 \<le> n" "n \<le> 122" by (simp_all add: isLower_def n_def)
  then have "65 \<le> n - 32 \<and> n - 32 \<le> 90" by arith
  then have "isWordChar (toUpperCase c)"
    by (simp add: isWordChar_def Let_def of_char_toUpperCase [OF assms] n_def)
  moreover from b have "isWordChar c"
    by (simp add: isWordChar_def Let_def n_def)
  ultimately show ?thesis by simp
qed

lemma toUpperCase_not_underscore:
  assumes "isLower c"
  shows "toUpperCase c \<noteq> CHR ''_''"
proof
  assume e: "toUpperCase c = CHR ''_''"
  define n where "n = (of_char c :: nat)"
  from assms have b: "97 \<le> n" "n \<le> 122" by (simp_all add: isLower_def n_def)
  from e have "(of_char (toUpperCase c) :: nat) = 95" by simp
  then have "n - 32 = 95" by (simp add: of_char_toUpperCase [OF assms] n_def)
  with b show False by arith
qed

lemma capitalizeFrom_idem:
  "capitalizeFrom p (capitalizeFrom p u) = capitalizeFrom p u"
proof (induction u arbitrary: p)
  case Nil
  show ?case by simp
next
  case (Cons c cs)
  show ?case
  proof (cases "\<not> p \<and> isLower c")
    case True
    then show ?thesis
      using Cons.IH [of "isWordChar c"]
      by (simp add: toUpperCase_not_lower toUpperCase_word)
  next
    case False
    then show ?thesis
      using Cons.IH [of "isWordChar c"] by auto
  qed
qed

lemma capitalizeFrom_no_underscore:
  "CHR ''_'' \<notin> set u \<Longrightarrow> CHR ''_'' \<notin> set (capitalizeFrom p u)"
proof (induction u arbitrary: p)
  case Nil
  show ?case by simp
next
  case (Cons c cs)
  then show ?case
    using toUpperCase_not_underscore [of c] by auto
qed

lemma replaceUnderscores_none: "CHR ''_'' \<notin> set (replaceUnderscores u)"
  by (auto simp: replaceUnderscores_def)

lemma replaceUnderscores_id: "CHR ''_'' \<notin> set u \<Longrightarrow> replaceUnderscores u = u"
  by (induction u) (auto simp: replaceUnderscores_def)


text \<open>
  Claim C9. The label of a unit is a function of the unit identifier alone (it is a HOL
  function of its argument), and formatting a label that is already formatted gives the
  same label: \<open>formatUnit (formatUnit u) = formatUnit u\<close> for every \<open>u\<close>, the value
  \<open>undefined\<close> and the empty string included.
\<close>

theorem formatUnit_idempotent:
  "formatUnit (Some (formatUnit u)) = formatUnit u"
proof (cases "truthy_opt u")
  case False
  then show ?thesis
    by (simp add: formatUnit_def truthy_opt_def truthy_def)
next
  case True
  define v where "v = replaceUnderscores (to_text u)"
  have nu: "CHR ''_'' \<notin> set (capitalizeFrom False v)"
    unfolding v_def by (rule capitalizeFrom_no_underscore) (rule replaceUnderscores_none)
  have f: "formatUnit u = capitalizeFrom False v"
    using True by (simp add: formatUnit_def capitalizeWords_def v_def)
  show ?thesis
  proof (cases "capitalizeFrom False v = []")
    case True
    then show ?thesis
      unfolding f by (simp add: formatUnit_def truthy_opt_def truthy_def)
  next
    case False
    then have "formatUnit (Some (capitalizeFrom False v))
        = capitalizeFrom False (replaceUnderscores (capitalizeFrom False v))"
      by (simp add: formatUnit_def truthy_opt_def truthy_def capitalizeWords_def to_text_def)
    also have "\<dots> = capitalizeFrom False (capitalizeFrom False v)"
      by (simp add: replaceUnderscores_id [OF nu])
    also have "\<dots> = capitalizeFrom False v"
      by (rule capitalizeFrom_idem)
    finally show ?thesis by (simp add: f)
  qed
qed


section \<open>Properties of the history ledger\<close>

lemma record_entry_take: "record_entry e hist = take 10 (e # hist)"
  by (simp add: record_entry_def slice0_def)


lemma record_all_Cons_take:
  "record_all (take 10 hist) es = take 10 (rev es @ hist)"
proof (induction es arbitrary: hist)
  case Nil
  show ?case by simp
next
  case (Cons e es)
  have "record_entry e (take 10 hist) = take 10 (e # hist)"
    by (simp add: record_entry_def slice0_def min_def)
  then show ?case using Cons.IH [of "e # hist"] by simp
qed

lemma record_all_nonempty:
  "es \<noteq> [] \<Longrightarrow> record_all hist es = take 10 (rev es @ hist)"
proof (cases es)
  case Nil
  assume "es \<noteq> []"
  with Nil show ?thesis by simp
next
  case (Cons e es')
  have "record_all hist es = record_all (take 10 (e # hist)) es'"
    by (simp add: Cons record_entry_take)
  also have "\<dots> = take 10 (rev es' @ e # hist)"
    by (rule record_all_Cons_take)
  finally show ?thesis by (simp add: Cons)
qed

lemma record_all_length: "length hist \<le> 10 \<Longrightarrow> length (record_all hist es) \<le> 10"
  by (cases "es = []") (simp_all add: record_all_nonempty)


text \<open>
  Claim C2. Recording an entry puts it in front and keeps the first ten entries of the
  outcome. From any ledger, recording eleven distinct entries one after the other leaves
  exactly the last ten of them, the most recent first, and the oldest of the eleven is
  gone. From the empty ledger, no sequence of records gives more than ten entries.
\<close>

theorem history_record_bounded:
  "record_entry e hist = take 10 (e # hist)
   \<and> (length es = 11 \<and> distinct es \<longrightarrow>
        record_all hist es = rev (tl es)
        \<and> length (record_all hist es) = 10
        \<and> hd es \<notin> set (record_all hist es))
   \<and> length (record_all [] es') \<le> 10"
proof (intro conjI impI)
  show "record_entry e hist = take 10 (e # hist)" by (rule record_entry_take)
  show "length (record_all [] es') \<le> 10" by (simp add: record_all_length)
next
  assume a: "length es = 11 \<and> distinct es"
  then obtain x xs where es: "es = x # xs" by (cases es) auto
  with a have lx: "length xs = 10" and nx: "x \<notin> set xs" by auto
  have "record_all hist es = take 10 (rev es @ hist)"
    by (rule record_all_nonempty) (simp add: es)
  also have "\<dots> = rev xs" using lx by (simp add: es)
  finally have r: "record_all hist es = rev xs" .
  show "record_all hist es = rev (tl es)" unfolding r by (simp add: es)
  show "length (record_all hist es) = 10" unfolding r by (simp add: lx)
  show "hd es \<notin> set (record_all hist es)" unfolding r by (simp add: es nx)
qed

theorem history_record_bounded_witness:
  "record_entry (0::nat) [20, 21] = [0, 20, 21]
   \<and> record_all [20, 21] [1, 2, 3, 4, 5, 6, 7, 8, 9, 10, 11 :: nat] = [11, 10, 9, 8, 7, 6, 5, 4, 3, 2]
   \<and> (1::nat) \<notin> set (record_all [20, 21] [1, 2, 3, 4, 5, 6, 7, 8, 9, 10, 11])"
  using history_record_bounded [of "0::nat" "[20, 21]" "[1, 2, 3, 4, 5, 6, 7, 8, 9, 10, 11]" "[]"]
  by simp

section \<open>The resolver and the steps of the component\<close>

lemma categoryOptions_eq: "categoryOptions = [''Length'', ''Weight'', ''Temperature'', ''Speed'']"
  by (simp add: categoryOptions_def staticConfig_def)

lemma resolveUnits_general:
  assumes "units \<noteq> []" and "\<forall>u \<in> set units. truthy u"
  shows "resolveUnits units =
           (Some (units ! 0), Some (if 1 < length units then units ! 1 else units ! 0))"
proof (cases "1 < length units")
  case True
  then have "units ! 1 \<in> set units" by simp
  with assms(2) have "truthy (units ! 1)" by blast
  with True assms(1) show ?thesis
    by (simp add: resolveUnits_def js_index_def js_or_def truthy_opt_def)
next
  case False
  with assms(1) show ?thesis
    by (simp add: resolveUnits_def js_index_def js_or_def truthy_opt_def)
qed

lemma staticConfig_units_truthy:
  assumes "map_of staticConfig c = Some units"
  shows "units \<noteq> [] \<and> (\<forall>u \<in> set units. truthy u)"
proof -
  from assms have "(c, units) \<in> set staticConfig" by (rule map_of_SomeD)
  then show ?thesis
    by (auto simp: staticConfig_def truthy_def)
qed

lemma resolve_staticConfig:
  assumes "map_of staticConfig c = Some units"
  shows "resolve staticConfig c =
           Inr (Some (units ! 0), Some (if 1 < length units then units ! 1 else units ! 0))"
  using staticConfig_units_truthy [OF assms] assms
  by (simp add: resolve_def resolveUnits_general)

lemma categoryOptions_in_catalog:
  assumes "c \<in> set categoryOptions"
  shows "\<exists>units. map_of staticConfig c = Some units"
  using assms by (auto simp: categoryOptions_eq staticConfig_def)

lemma handle_category:
  "category (handle s ev) = category s \<or> (category (handle s ev) \<in> set categoryOptions)"
  by (cases ev)
     (simp_all add: handleConvert_submit_def handleConvert_settle_def Let_def
        handleCurrencyConvert_submit_def handleCurrencyConvert_settle_def
        split: settlement.splits)

lemma commit_same_category:
  "category r = category old \<Longrightarrow>
   commit now old r = Inr (if result r \<noteq> result old then historyEffect now r r else r)"
  by (simp add: commit_def)

lemma commit_new_category:
  assumes "category r \<noteq> category old" and "map_of staticConfig (category r) = Some units"
  shows "commit now old r =
     (let s1 = r\<lparr>fromUnit := Some (units ! 0),
                 toUnit := Some (if 1 < length units then units ! 1 else units ! 0)\<rparr>
      in Inr (if result r \<noteq> result old then historyEffect now r s1 else s1))"
  using assms by (simp add: commit_def categoryEffect_def resolve_staticConfig)

lemma commit_total:
  assumes "category r = category old \<or> category r \<in> set categoryOptions"
  shows "\<exists>s'. commit now old r = Inr s'"
proof (cases "category r = category old")
  case True
  then show ?thesis by (simp add: commit_same_category)
next
  case False
  with assms obtain units where "map_of staticConfig (category r) = Some units"
    using categoryOptions_in_catalog by blast
  with False show ?thesis by (simp add: commit_new_category Let_def)
qed

lemma step_total: "\<exists>s'. step now s ev = Inr s'"
  unfolding step_def by (rule commit_total) (rule handle_category)

lemma run_total: "\<exists>s'. run s evs = Inr s'"
proof (induction evs arbitrary: s)
  case Nil
  show ?case by simp
next
  case (Cons a evs)
  obtain now ev where a: "a = (now, ev)" by (cases a)
  obtain s1 where "step now s ev = Inr s1" using step_total by blast
  with Cons.IH [of s1] show ?case by (simp add: a)
qed

lemma runPage_run: "runPage s evs = Inr s' \<Longrightarrow> run s evs = Inr s'"
proof (induction evs arbitrary: s)
  case Nil
  then show ?case by simp
next
  case (Cons a evs)
  obtain now ev where a: "a = (now, ev)" by (cases a)
  from Cons.prems obtain s1 where "step now s ev = Inr s1" and "runPage s1 evs = Inr s'"
    by (auto simp: a split: sum.splits)
  with Cons.IH [of s1] show ?case by (simp add: a)
qed

lemma commit_frame:
  assumes "commit now old r = Inr s'"
  shows "category s' = category r \<and> value_in s' = value_in r \<and> result s' = result r
    \<and> error s' = error r \<and> isLoading s' = isLoading r \<and> enableCurrency s' = enableCurrency r
    \<and> currencyFrom s' = currencyFrom r \<and> currencyTo s' = currencyTo r
    \<and> currencyValue s' = currencyValue r \<and> currencyResult s' = currencyResult r
    \<and> pendingConvert s' = pendingConvert r \<and> pendingCurrency s' = pendingCurrency r"
  using assms
  by (auto simp: commit_def categoryEffect_def historyEffect_def
      split: if_splits sum.splits prod.splits)

lemma mount_initial: "mount now = Inr initial"
  by (simp add: mount_def categoryEffect_def historyEffect_def historyGuard_def truthy_def
      initial_def resolve_def resolveUnits_def js_index_def js_or_def truthy_opt_def
      staticConfig_def)

section \<open>Runs used as examples\<close>

lemmas run_eval =
  step_def commit_def initial_def convertDisabled_def currencyDisabled_def truthy_def
  truthy_opt_def handleConvert_submit_def handleConvert_settle_def
  handleCurrencyConvert_submit_def handleCurrencyConvert_settle_def settleConvert_def convertTry_def
  settleCurrency_def currencyTry_def remove_at_def historyEffect_def historyGuard_def makeEntry_def
  record_entry_def slice0_def js_or_val_def to_text_def render_def

lemma run_to_loading:
  "run initial [(1, SetValue ''3''), (2, SubmitConvert)] =
     Inr (initial\<lparr>value_in := ''3'', isLoading := True, pendingConvert := [Some ''kilometer'']\<rparr>)"
  by (simp add: run_eval)

lemma run_currency_loading:
  "run initial
     [(1, SetValue ''3''), (2, SetEnableCurrency True), (3, SetCurrencyValue ''5''),
      (4, SubmitCurrency)]
   = Inr (initial\<lparr>value_in := ''3'', enableCurrency := True, currencyValue := ''5'',
            isLoading := True, pendingCurrency := [''EUR'']\<rparr>)"
  by (simp add: run_eval)

lemma run_both_workflows:
  "run initial
     [(1, SetValue ''3''), (2, SubmitConvert),
      (3, ConvertAnswered 0 (Responded True (JsonData JUndefined ''3.6''))),
      (4, SetEnableCurrency True), (5, SetCurrencyValue ''5''), (6, SubmitCurrency),
      (7, CurrencyAnswered 0 (Responded True (JsonData JUndefined ''4.2'')))]
   = Inr (initial\<lparr>value_in := ''3'', result := ''3.6 kilometer'', enableCurrency := True,
            currencyValue := ''5'', currencyResult := ''4.2 EUR'',
            history := [\<lparr>entry_category = ''Length'', entry_value = ''3'',
                         entry_fromUnit = Some ''meter'', entry_toUnit = Some ''kilometer'',
                         entry_result = ''3.6 kilometer'', entry_timestamp = 3\<rparr>]\<rparr>)"
  by (simp add: run_eval)

section \<open>Unit selection\<close>

text \<open>
  Claim C1. For every category of the catalog the resolver gives the first unit of the
  category as \<open>fromUnit\<close> and the second as \<open>toUnit\<close> (the first again when the list has
  one entry only). Whatever units were selected before, a change of the category to one
  the selector offers sets both units to that pair. The last part states the same of any
  catalog of non-empty unit names, which covers a list of one unit.
\<close>

theorem category_change_resets_units:
  "(map_of staticConfig c = Some units \<longrightarrow>
      resolve staticConfig c =
        Inr (Some (units ! 0), Some (if 1 < length units then units ! 1 else units ! 0)))
   \<and> (map_of staticConfig c = Some units \<and> c \<in> set categoryOptions \<and> c \<noteq> category s \<longrightarrow>
        (\<exists>s'. step now s (SetCategory c) = Inr s' \<and> category s' = c
           \<and> fromUnit s' = Some (units ! 0)
           \<and> toUnit s' = Some (if 1 < length units then units ! 1 else units ! 0)))
   \<and> (map_of cfg k = Some us \<and> us \<noteq> [] \<and> (\<forall>u \<in> set us. truthy u) \<longrightarrow>
        resolve cfg k = Inr (Some (us ! 0), Some (if 1 < length us then us ! 1 else us ! 0)))"
proof (intro conjI impI)
  assume "map_of staticConfig c = Some units"
  then show "resolve staticConfig c =
        Inr (Some (units ! 0), Some (if 1 < length units then units ! 1 else units ! 0))"
    by (rule resolve_staticConfig)
next
  assume a: "map_of staticConfig c = Some units \<and> c \<in> set categoryOptions \<and> c \<noteq> category s"
  define r where "r = handle s (SetCategory c)"
  from a have r: "r = s\<lparr>category := c\<rparr>" by (simp add: r_def)
  then have "category r \<noteq> category s" "map_of staticConfig (category r) = Some units"
    "result r = result s"
    using a by simp_all
  then have "commit now s r = Inr (r\<lparr>fromUnit := Some (units ! 0),
                 toUnit := Some (if 1 < length units then units ! 1 else units ! 0)\<rparr>)"
    by (simp add: commit_new_category Let_def)
  then have "step now s (SetCategory c) = Inr (s\<lparr>category := c, fromUnit := Some (units ! 0),
                 toUnit := Some (if 1 < length units then units ! 1 else units ! 0)\<rparr>)"
    unfolding step_def r_def [symmetric] by (simp add: r)
  then show "\<exists>s'. step now s (SetCategory c) = Inr s' \<and> category s' = c
           \<and> fromUnit s' = Some (units ! 0)
           \<and> toUnit s' = Some (if 1 < length units then units ! 1 else units ! 0)"
    by simp
next
  assume "map_of cfg k = Some us \<and> us \<noteq> [] \<and> (\<forall>u \<in> set us. truthy u)"
  then show "resolve cfg k = Inr (Some (us ! 0), Some (if 1 < length us then us ! 1 else us ! 0))"
    by (simp add: resolve_def resolveUnits_general)
qed

theorem category_change_resets_units_witness:
  "resolve staticConfig ''Currency'' = Inr (Some ''USD'', Some ''EUR'')
   \<and> (\<exists>s'. step 7 (initial\<lparr>fromUnit := Some ''mile'', toUnit := Some ''inch''\<rparr>) (SetCategory ''Weight'') = Inr s'
         \<and> category s' = ''Weight'' \<and> fromUnit s' = Some ''gram'' \<and> toUnit s' = Some ''kilogram'')
   \<and> resolve [(''Solo'', [''only''])] ''Solo'' = Inr (Some ''only'', Some ''only'')"
proof -
  have c: "map_of staticConfig ''Currency'' = Some [''USD'', ''EUR'', ''GBP'', ''JPY'', ''INR'']"
    by (simp add: staticConfig_def)
  have w: "map_of staticConfig ''Weight'' = Some [''gram'', ''kilogram'', ''pound'', ''ounce'']"
    by (simp add: staticConfig_def)
  have o: "''Weight'' \<in> set categoryOptions" by (simp add: categoryOptions_eq)
  have n: "''Weight'' \<noteq> category (initial\<lparr>fromUnit := Some ''mile'', toUnit := Some ''inch''\<rparr>)"
    by (simp add: initial_def)
  show ?thesis
    using category_change_resets_units [of "''Currency''" "[''USD'', ''EUR'', ''GBP'', ''JPY'', ''INR'']"
        "initial" 0 "[(''Solo'', [''only''])]" "''Solo''" "[''only'']"]
      category_change_resets_units [of "''Weight''" "[''gram'', ''kilogram'', ''pound'', ''ounce'']"
        "initial\<lparr>fromUnit := Some ''mile'', toUnit := Some ''inch''\<rparr>" 7 "[(''Solo'', [''only''])]" "''Solo''" "[''only'']"]
      c w o n
    by (simp add: truthy_def)
qed

section \<open>Requests in flight and the submit buttons\<close>

lemma remove_at_length: "i < length xs \<Longrightarrow> length (remove_at i xs) = length xs - 1"
  by (simp add: remove_at_def min_def)

lemma remove_at_single: "i < length xs \<Longrightarrow> length xs = 1 \<Longrightarrow> remove_at i xs = []"
  using remove_at_length [of i xs] by simp

lemma handleConvert_settle_flight:
  "isLoading (handleConvert_settle i r s) = False"
  "pendingConvert (handleConvert_settle i r s) = remove_at i (pendingConvert s)"
  "pendingCurrency (handleConvert_settle i r s) = pendingCurrency s"
  by (simp_all add: handleConvert_settle_def Let_def split: settlement.splits)

lemma handleCurrencyConvert_settle_flight:
  "isLoading (handleCurrencyConvert_settle i r s) = False"
  "pendingCurrency (handleCurrencyConvert_settle i r s) = remove_at i (pendingCurrency s)"
  "pendingConvert (handleCurrencyConvert_settle i r s) = pendingConvert s"
  by (simp_all add: handleCurrencyConvert_settle_def Let_def split: settlement.splits)

lemma inFlightInv_handle:
  assumes "inFlightInv s"
  shows "inFlightInv (handle s ev)"
proof (cases ev)
  case SubmitConvert
  with assms show ?thesis
    by (auto simp: inFlightInv_def convertDisabled_def handleConvert_submit_def)
next
  case SubmitCurrency
  with assms show ?thesis
    by (auto simp: inFlightInv_def currencyDisabled_def handleCurrencyConvert_submit_def)
next
  case (ConvertAnswered i r)
  show ?thesis
  proof (cases "i < length (pendingConvert s)")
    case True
    from assms have "length (pendingConvert s) + length (pendingCurrency s) \<le> 1"
      by (simp add: inFlightInv_def)
    with True have "length (pendingConvert s) = 1 \<and> length (pendingCurrency s) = 0"
      by arith
    then have "pendingConvert s \<noteq> []" "length (pendingConvert s) = 1" "pendingCurrency s = []"
      by auto
    with True ConvertAnswered show ?thesis
      by (simp add: inFlightInv_def handleConvert_settle_flight remove_at_single)
  next
    case False
    with assms ConvertAnswered show ?thesis by simp
  qed
next
  case (CurrencyAnswered i r)
  show ?thesis
  proof (cases "i < length (pendingCurrency s)")
    case True
    from assms have "length (pendingConvert s) + length (pendingCurrency s) \<le> 1"
      by (simp add: inFlightInv_def)
    with True have "length (pendingCurrency s) = 1 \<and> length (pendingConvert s) = 0"
      by arith
    then have "pendingCurrency s \<noteq> []" "length (pendingCurrency s) = 1" "pendingConvert s = []"
      by auto
    with True CurrencyAnswered show ?thesis
      by (simp add: inFlightInv_def handleCurrencyConvert_settle_flight remove_at_single)
  next
    case False
    with assms CurrencyAnswered show ?thesis by simp
  qed
qed (use assms in \<open>simp_all add: inFlightInv_def\<close>)

lemma inFlightInv_step:
  assumes "inFlightInv s" and "step now s ev = Inr s'"
  shows "inFlightInv s'"
proof -
  from assms(2) have f: "isLoading s' = isLoading (handle s ev)"
    "pendingConvert s' = pendingConvert (handle s ev)"
    "pendingCurrency s' = pendingCurrency (handle s ev)"
    using commit_frame [of now s "handle s ev" s'] by (simp_all add: step_def)
  from inFlightInv_handle [OF assms(1), of ev] show ?thesis
    by (simp add: inFlightInv_def f)
qed

lemma inFlightInv_run:
  assumes "inFlightInv s" and "run s evs = Inr s'"
  shows "inFlightInv s'"
  using assms
proof (induction evs arbitrary: s)
  case Nil
  then show ?case by simp
next
  case (Cons a evs)
  obtain now ev where a: "a = (now, ev)" by (cases a)
  obtain s1 where s1: "step now s ev = Inr s1" using step_total by blast
  with Cons.prems(2) have "run s1 evs = Inr s'" by (simp add: a)
  moreover from Cons.prems(1) s1 have "inFlightInv s1" by (rule inFlightInv_step)
  ultimately show ?case by (rule Cons.IH [rotated])
qed

lemma inFlightInv_initial: "inFlightInv initial"
  by (simp add: inFlightInv_def initial_def)

lemma step_disabled_convert:
  "convertDisabled s \<Longrightarrow> step now s SubmitConvert = Inr s"
  by (simp add: step_def commit_same_category)

lemma step_disabled_currency:
  "currencyDisabled s \<Longrightarrow> step now s SubmitCurrency = Inr s"
  by (simp add: step_def commit_same_category)

text \<open>
  Claim C4. In every state the component can reach, each workflow has at most one request
  in flight; while a workflow has one, the loading flag is set, its submit button is
  disabled, and a submit of that workflow changes nothing (no second request is sent).
\<close>

theorem one_request_in_flight:
  assumes "run initial evs = Inr s"
  shows "length (pendingConvert s) \<le> 1 \<and> length (pendingCurrency s) \<le> 1
    \<and> (pendingConvert s \<noteq> [] \<longrightarrow>
          isLoading s \<and> convertDisabled s \<and> step now s SubmitConvert = Inr s)
    \<and> (pendingCurrency s \<noteq> [] \<longrightarrow>
          isLoading s \<and> currencyDisabled s \<and> step now s SubmitCurrency = Inr s)"
proof -
  have inv: "inFlightInv s"
    using inFlightInv_initial assms by (rule inFlightInv_run)
  then have len: "length (pendingConvert s) \<le> 1" "length (pendingCurrency s) \<le> 1"
    by (simp_all add: inFlightInv_def)
  have c: "isLoading s \<and> convertDisabled s \<and> step now s SubmitConvert = Inr s"
    if "pendingConvert s \<noteq> []"
  proof -
    from inv that have l: "isLoading s" by (simp add: inFlightInv_def)
    then have d: "convertDisabled s" by (simp add: convertDisabled_def)
    from l d step_disabled_convert [OF d] show ?thesis by simp
  qed
  have u: "isLoading s \<and> currencyDisabled s \<and> step now s SubmitCurrency = Inr s"
    if "pendingCurrency s \<noteq> []"
  proof -
    from inv that have l: "isLoading s" by (simp add: inFlightInv_def)
    then have d: "currencyDisabled s" by (simp add: currencyDisabled_def)
    from l d step_disabled_currency [OF d] show ?thesis by simp
  qed
  from len c u show ?thesis by blast
qed


theorem one_request_in_flight_witness:
  "run initial [(1, SetValue ''3''), (2, SubmitConvert)] =
     Inr (initial\<lparr>value_in := ''3'', isLoading := True, pendingConvert := [Some ''kilometer'']\<rparr>)
   \<and> step 3 (initial\<lparr>value_in := ''3'', isLoading := True, pendingConvert := [Some ''kilometer'']\<rparr>)
        SubmitConvert
      = Inr (initial\<lparr>value_in := ''3'', isLoading := True, pendingConvert := [Some ''kilometer'']\<rparr>)
   \<and> run initial
        [(1, SetValue ''3''), (2, SetEnableCurrency True), (3, SetCurrencyValue ''5''),
         (4, SubmitCurrency)]
      = Inr (initial\<lparr>value_in := ''3'', enableCurrency := True, currencyValue := ''5'',
               isLoading := True, pendingCurrency := [''EUR'']\<rparr>)
   \<and> step 5 (initial\<lparr>value_in := ''3'', enableCurrency := True, currencyValue := ''5'',
               isLoading := True, pendingCurrency := [''EUR'']\<rparr>) SubmitCurrency
      = Inr (initial\<lparr>value_in := ''3'', enableCurrency := True, currencyValue := ''5'',
               isLoading := True, pendingCurrency := [''EUR'']\<rparr>)"
  using one_request_in_flight [OF run_to_loading, of 3] run_to_loading
    one_request_in_flight [OF run_currency_loading, of 5] run_currency_loading
  by simp

section \<open>Failures of the standard conversion\<close>

lemma handleConvert_settle_category: "category (handleConvert_settle i r s) = category s"
  by (simp add: handleConvert_settle_def Let_def split: settlement.splits)

lemma step_ConvertAnswered:
  assumes "i < length (pendingConvert s)"
  shows "step now s (ConvertAnswered i r) =
     Inr (if result (handleConvert_settle i r s) \<noteq> result s
          then historyEffect now (handleConvert_settle i r s) (handleConvert_settle i r s)
          else handleConvert_settle i r s)"
  using assms by (simp add: step_def commit_same_category handleConvert_settle_category)

lemma historyEffect_keeps:
  "error (historyEffect now r s) = error s"
  "result (historyEffect now r s) = result s"
  "isLoading (historyEffect now r s) = isLoading s"
  by (simp_all add: historyEffect_def)

lemma settleConvert_transport:
  "settleConvert u Rejected = TransportError ''Could not reach backend.''"
  "settleConvert u (Responded ok Unparseable) = TransportError ''Could not reach backend.''"
  "settleConvert u (Responded ok JsonNull) = TransportError ''Could not reach backend.''"
  by (simp_all add: settleConvert_def convertTry_def)

lemma settleConvert_service:
  "settleConvert u (Responded False (JsonData d rt)) = ServiceError (js_or_val d ''Conversion failed.'')"
  by (simp add: settleConvert_def convertTry_def)

lemma handleConvert_settle_error:
  "\<And>m. settleConvert (pendingConvert s ! i) r = TransportError m \<Longrightarrow>
     error (handleConvert_settle i r s) = JStr m \<and> result (handleConvert_settle i r s) = result s"
  "\<And>m. settleConvert (pendingConvert s ! i) r = ServiceError m \<Longrightarrow>
     error (handleConvert_settle i r s) = m \<and> result (handleConvert_settle i r s) = []"
  "\<And>t. settleConvert (pendingConvert s ! i) r = Success t \<Longrightarrow>
     error (handleConvert_settle i r s) = error s \<and> result (handleConvert_settle i r s) = t"
  by (simp_all add: handleConvert_settle_def Let_def)

lemma step_answer_fields:
  assumes "i < length (pendingConvert s)"
  shows "\<exists>s'. step now s (ConvertAnswered i r) = Inr s'
           \<and> error s' = error (handleConvert_settle i r s)
           \<and> result s' = result (handleConvert_settle i r s)
           \<and> isLoading s' = False"
  by (simp add: step_ConvertAnswered [OF assms] historyEffect_keeps handleConvert_settle_flight)

text \<open>What an answer to a standard conversion leaves in \<open>error\<close>, for every outcome.\<close>

lemma convert_answer_error:
  assumes "i < length (pendingConvert s)"
  shows "\<exists>s'. step now s (ConvertAnswered i r) = Inr s' \<and> \<not> isLoading s'
          \<and> (r = Rejected \<or> r = Responded ok Unparseable \<or> r = Responded ok JsonNull \<longrightarrow>
                error s' = JStr ''Could not reach backend.'')
          \<and> (r = Responded False (JsonData d rt) \<longrightarrow>
                error s' = js_or_val d ''Conversion failed.'' \<and> result s' = [])
          \<and> (r = Responded True (JsonData d rt) \<longrightarrow> error s' = error s)"
proof -
  obtain s' where s': "step now s (ConvertAnswered i r) = Inr s'"
    "error s' = error (handleConvert_settle i r s)"
    "result s' = result (handleConvert_settle i r s)" "isLoading s' = False"
    using step_answer_fields [OF assms] by blast
  have t: "error s' = JStr ''Could not reach backend.''"
    if "r = Rejected \<or> r = Responded ok Unparseable \<or> r = Responded ok JsonNull"
    using that s'(2) handleConvert_settle_error(1) [of s i r] settleConvert_transport
    by auto
  have d: "error s' = js_or_val d ''Conversion failed.'' \<and> result s' = []"
    if "r = Responded False (JsonData d rt)"
    using that s'(2,3) handleConvert_settle_error(2) [of s i r] settleConvert_service
    by simp
  have k: "error s' = error s" if "r = Responded True (JsonData d rt)"
    using that s'(2) handleConvert_settle_error(3) [of s i r]
    by (simp add: settleConvert_def convertTry_def)
  from s'(1,4) t d k show ?thesis by blast
qed

text \<open>
  Claim C10. A response whose body cannot be parsed as JSON throws inside the \<open>try\<close>
  block and is handled by the \<open>catch\<close> that handles a request that could not be sent:
  the state after it is the state after a rejected request, with the message
  \<open>Could not reach backend.\<close> and not \<open>Conversion failed.\<close>, whatever the status.
\<close>

theorem unparseable_body_reported_as_transport:
  assumes "i < length (pendingConvert s)"
  shows "convertTry u (Responded ok Unparseable) = Inl SyntaxError
    \<and> settleConvert u (Responded ok Unparseable) = settleConvert u Rejected
    \<and> step now s (ConvertAnswered i (Responded ok Unparseable)) = step now s (ConvertAnswered i Rejected)
    \<and> (\<exists>s'. step now s (ConvertAnswered i (Responded ok Unparseable)) = Inr s'
          \<and> error s' = JStr ''Could not reach backend.'' \<and> error s' \<noteq> JStr ''Conversion failed.''
          \<and> \<not> isLoading s')"
proof (intro conjI)
  show "convertTry u (Responded ok Unparseable) = Inl SyntaxError"
    by (simp add: convertTry_def)
  show "settleConvert u (Responded ok Unparseable) = settleConvert u Rejected"
    by (simp add: settleConvert_transport)
  have "handleConvert_settle i (Responded ok Unparseable) s = handleConvert_settle i Rejected s"
    by (simp add: handleConvert_settle_def settleConvert_transport)
  then show "step now s (ConvertAnswered i (Responded ok Unparseable)) = step now s (ConvertAnswered i Rejected)"
    by (simp add: step_def)
next
  obtain s' where s': "step now s (ConvertAnswered i (Responded ok Unparseable)) = Inr s'"
    "error s' = error (handleConvert_settle i (Responded ok Unparseable) s)" "isLoading s' = False"
    using step_answer_fields [OF assms] by blast
  from s'(2) have "error s' = JStr ''Could not reach backend.''"
    using handleConvert_settle_error(1) [of s i "Responded ok Unparseable"] settleConvert_transport(2)
    by simp
  with s'(1,3) show "\<exists>s'. step now s (ConvertAnswered i (Responded ok Unparseable)) = Inr s'
          \<and> error s' = JStr ''Could not reach backend.'' \<and> error s' \<noteq> JStr ''Conversion failed.''
          \<and> \<not> isLoading s'"
    by simp
qed

theorem unparseable_body_witness:
  "(0::nat) < length (pendingConvert (initial\<lparr>value_in := ''3'', isLoading := True, pendingConvert := [Some ''kilometer'']\<rparr>))
   \<and> (\<exists>s'. step 3 (initial\<lparr>value_in := ''3'', isLoading := True, pendingConvert := [Some ''kilometer'']\<rparr>)
               (ConvertAnswered 0 (Responded False Unparseable)) = Inr s'
          \<and> error s' = JStr ''Could not reach backend.'' \<and> \<not> isLoading s')"
proof -
  have h: "(0::nat) < length (pendingConvert (initial\<lparr>value_in := ''3'', isLoading := True, pendingConvert := [Some ''kilometer'']\<rparr>))"
    by simp
  show ?thesis
    using h unparseable_body_reported_as_transport [OF h, of None False 3]
    by blast
qed

text \<open>
  Claim C3. The claim asks, for a response with a status that is not ok, for the detail
  of the response as message when there is one and for exactly \<open>Conversion failed.\<close>
  otherwise, and for no exception to escape. The handler reads the body before it looks
  at the status. At the first input the service answers a submitted conversion with a
  status that is not ok and a body that is not JSON: there is no detail, and the message
  left in \<open>error\<close> is \<open>Could not reach backend.\<close>, the one meant for a service that was not
  reached. At the second input the detail is the array of objects that a validation
  failure of the service carries: it is stored as the message unchecked, and drawing the
  page from it throws, which ends the run of the page.
\<close>

theorem convert_failure_at_failing_input:
  "runPage initial [(1, SetValue ''3''), (2, SubmitConvert),
                (3, ConvertAnswered 0 (Responded False Unparseable))] =
     Inr (initial\<lparr>value_in := ''3'', error := JStr ''Could not reach backend.''\<rparr>)
   \<and> JStr ''Could not reach backend.'' \<noteq> JStr ''Conversion failed.''
   \<and> step 3 (initial\<lparr>value_in := ''3'', isLoading := True, pendingConvert := [Some ''kilometer'']\<rparr>)
        (ConvertAnswered 0
           (Responded False (JsonData (JArr [JObj [(''msg'', JStr ''field required'')]]) ''undefined'')))
      = Inr (initial\<lparr>value_in := ''3'',
               error := JArr [JObj [(''msg'', JStr ''field required'')]]\<rparr>)
   \<and> render (initial\<lparr>value_in := ''3'',
               error := JArr [JObj [(''msg'', JStr ''field required'')]]\<rparr>)
      = Inl InvalidReactChild
   \<and> runPage initial [(1, SetValue ''3''), (2, SubmitConvert),
                (3, ConvertAnswered 0
                      (Responded False
                         (JsonData (JArr [JObj [(''msg'', JStr ''field required'')]]) ''undefined'')))] =
     Inl InvalidReactChild"
  by (simp add: run_eval)

section \<open>Where history entries come from\<close>

lemma commit_history:
  assumes "commit now old r = Inr s'"
  shows "history s' =
     (if result r \<noteq> result old \<and> historyGuard r
      then record_entry (makeEntry now r) (history r) else history r)"
  using assms
  by (auto simp: commit_def categoryEffect_def historyEffect_def
      split: if_splits sum.splits prod.splits)

lemma handle_history: "history (handle s ev) = history s"
  by (cases ev)
     (simp_all add: handleConvert_submit_def handleConvert_settle_def Let_def
        handleCurrencyConvert_submit_def handleCurrencyConvert_settle_def
        split: settlement.splits)

lemma settleConvert_Success_iff:
  "settleConvert u r = Success t \<longleftrightarrow>
     (\<exists>d rt. r = Responded True (JsonData d rt) \<and> t = rt @ '' '' @ to_text u)"
  by (auto simp: settleConvert_def convertTry_def split: fetch_outcome.splits body.splits)

lemma handle_result_cases:
  "result (handle s ev) = result s \<or> result (handle s ev) = []
   \<or> (\<exists>i d rt. ev = ConvertAnswered i (Responded True (JsonData d rt))
         \<and> i < length (pendingConvert s)
         \<and> result (handle s ev) = rt @ '' '' @ to_text (pendingConvert s ! i))"
proof (cases ev)
  case (ConvertAnswered i r)
  show ?thesis
  proof (cases "i < length (pendingConvert s)")
    case False
    with ConvertAnswered show ?thesis by simp
  next
    case True
    show ?thesis
    proof (cases "settleConvert (pendingConvert s ! i) r")
      case (ServiceError m)
      with True ConvertAnswered show ?thesis
        by (simp add: handleConvert_settle_error(2))
    next
      case (TransportError m)
      with True ConvertAnswered show ?thesis
        by (simp add: handleConvert_settle_error(1))
    next
      case (Success t)
      then obtain d rt where "r = Responded True (JsonData d rt)"
        "t = rt @ '' '' @ to_text (pendingConvert s ! i)"
        by (auto simp: settleConvert_Success_iff)
      with True ConvertAnswered Success show ?thesis
        by (simp add: handleConvert_settle_error(3))
    qed
  qed
qed (simp_all add: handleConvert_submit_def handleCurrencyConvert_submit_def
       handleCurrencyConvert_settle_def Let_def split: settlement.splits)

lemma step_history_cases:
  assumes "step now s ev = Inr s'"
  shows "history s' = history s
    \<or> (\<exists>i d rt. ev = ConvertAnswered i (Responded True (JsonData d rt))
          \<and> history s' = record_entry (makeEntry now (handle s ev)) (history s)
          \<and> result (handle s ev) = rt @ '' '' @ to_text (pendingConvert s ! i)
          \<and> historyGuard (handle s ev))"
proof (cases "result (handle s ev) \<noteq> result s \<and> historyGuard (handle s ev)")
  case False
  from assms have "history s' = history s"
    using commit_history [of now s "handle s ev" s'] False
    by (auto simp: step_def handle_history)
  then show ?thesis by simp
next
  case True
  then have "result (handle s ev) \<noteq> []" by (simp add: historyGuard_def truthy_def)
  with True handle_result_cases [of s ev]
  obtain i d rt where "ev = ConvertAnswered i (Responded True (JsonData d rt))"
    "result (handle s ev) = rt @ '' '' @ to_text (pendingConvert s ! i)"
    by blast
  moreover from assms True
  have "history s' = record_entry (makeEntry now (handle s ev)) (history s)"
    using commit_history [of now s "handle s ev" s'] by (simp add: step_def handle_history)
  ultimately show ?thesis using True by blast
qed

lemma set_record_entry: "set (record_entry e hist) \<subseteq> insert e (set hist)"
  using set_take_subset [of 9 hist] by (auto simp: record_entry_def slice0_def)

lemma run_history_origin:
  assumes "run s0 evs = Inr s" and "e \<in> set (history s)"
  shows "e \<in> set (history s0)
    \<or> (\<exists>t j d rt. (t, ConvertAnswered j (Responded True (JsonData d rt))) \<in> set evs
        \<and> entry_timestamp e = t \<and> entry_category e \<noteq> ''Currency''
        \<and> (\<exists>u. entry_result e = rt @ '' '' @ u))"
  using assms
proof (induction evs arbitrary: s0)
  case Nil
  then show ?case by simp
next
  case (Cons a evs)
  obtain now ev where a: "a = (now, ev)" by (cases a)
  obtain s1 where s1: "step now s0 ev = Inr s1" using step_total by blast
  with Cons.prems(1) have r: "run s1 evs = Inr s" by (simp add: a)
  from Cons.IH [OF r Cons.prems(2)]
  consider (old) "e \<in> set (history s1)"
    | (later) "\<exists>t j d rt. (t, ConvertAnswered j (Responded True (JsonData d rt))) \<in> set evs
        \<and> entry_timestamp e = t \<and> entry_category e \<noteq> ''Currency''
        \<and> (\<exists>u. entry_result e = rt @ '' '' @ u)"
    by blast
  then show ?case
  proof cases
    case later
    then show ?thesis by (auto simp: a)
  next
    case old
    from step_history_cases [OF s1]
    consider (same) "history s1 = history s0"
      | (added) i d rt where "ev = ConvertAnswered i (Responded True (JsonData d rt))"
          "history s1 = record_entry (makeEntry now (handle s0 ev)) (history s0)"
          "result (handle s0 ev) = rt @ '' '' @ to_text (pendingConvert s0 ! i)"
          "historyGuard (handle s0 ev)"
      by blast
    then show ?thesis
    proof cases
      case same
      with old show ?thesis by simp
    next
      case added
      from old added(2) set_record_entry [of "makeEntry now (handle s0 ev)" "history s0"]
      have "e = makeEntry now (handle s0 ev) \<or> e \<in> set (history s0)" by auto
      then show ?thesis
      proof
        assume "e \<in> set (history s0)"
        then show ?thesis by simp
      next
        assume e: "e = makeEntry now (handle s0 ev)"
        have "(now, ConvertAnswered i (Responded True (JsonData d rt))) \<in> set (a # evs)"
          by (simp add: a added(1))
        moreover have "entry_timestamp e = now" by (simp add: e makeEntry_def)
        moreover have "entry_category e \<noteq> ''Currency''"
          using added(4) by (simp add: e makeEntry_def historyGuard_def)
        moreover have "entry_result e = rt @ '' '' @ to_text (pendingConvert s0 ! i)"
          using added(3) by (simp add: e makeEntry_def)
        ultimately show ?thesis by blast
      qed
    qed
  qed
qed

text \<open>
  Claim C5. Neither a submit nor an answer of the currency workflow changes the history,
  in any state. In every run from the initial state, each entry of the history was added
  by a successful answer to a standard conversion in that run: it carries the time of
  that answer, the result text of that answer, and a category other than \<open>Currency\<close>.
\<close>

theorem currency_never_in_history:
  "(\<exists>s'. step now s SubmitCurrency = Inr s' \<and> history s' = history s)
   \<and> (\<exists>s'. step now s (CurrencyAnswered i r) = Inr s' \<and> history s' = history s)
   \<and> (run initial evs = Inr s1 \<and> e \<in> set (history s1) \<longrightarrow>
        (\<exists>t j d rt. (t, ConvertAnswered j (Responded True (JsonData d rt))) \<in> set evs
           \<and> entry_timestamp e = t \<and> entry_category e \<noteq> ''Currency''
           \<and> (\<exists>u. entry_result e = rt @ '' '' @ u)))"
proof (intro conjI impI)
  obtain s' where s': "step now s SubmitCurrency = Inr s'" using step_total by blast
  with step_history_cases [OF s'] show "\<exists>s'. step now s SubmitCurrency = Inr s' \<and> history s' = history s"
    by auto
next
  obtain s' where s': "step now s (CurrencyAnswered i r) = Inr s'" using step_total by blast
  with step_history_cases [OF s']
  show "\<exists>s'. step now s (CurrencyAnswered i r) = Inr s' \<and> history s' = history s"
    by auto
next
  assume a: "run initial evs = Inr s1 \<and> e \<in> set (history s1)"
  then have "e \<in> set (history initial)
    \<or> (\<exists>t j d rt. (t, ConvertAnswered j (Responded True (JsonData d rt))) \<in> set evs
        \<and> entry_timestamp e = t \<and> entry_category e \<noteq> ''Currency''
        \<and> (\<exists>u. entry_result e = rt @ '' '' @ u))"
    using run_history_origin [of initial evs s1 e] by simp
  then show "\<exists>t j d rt. (t, ConvertAnswered j (Responded True (JsonData d rt))) \<in> set evs
        \<and> entry_timestamp e = t \<and> entry_category e \<noteq> ''Currency''
        \<and> (\<exists>u. entry_result e = rt @ '' '' @ u)"
    by (simp add: initial_def)
qed

theorem currency_never_in_history_witness:
  "run initial
     [(1, SetValue ''3''), (2, SubmitConvert),
      (3, ConvertAnswered 0 (Responded True (JsonData JUndefined ''3.6''))),
      (4, SetEnableCurrency True), (5, SetCurrencyValue ''5''), (6, SubmitCurrency),
      (7, CurrencyAnswered 0 (Responded True (JsonData JUndefined ''4.2'')))]
   = Inr (initial\<lparr>value_in := ''3'', result := ''3.6 kilometer'', enableCurrency := True,
            currencyValue := ''5'', currencyResult := ''4.2 EUR'',
            history := [\<lparr>entry_category = ''Length'', entry_value = ''3'',
                         entry_fromUnit = Some ''meter'', entry_toUnit = Some ''kilometer'',
                         entry_result = ''3.6 kilometer'', entry_timestamp = 3\<rparr>]\<rparr>)
   \<and> (\<exists>t j d rt.
         (t, ConvertAnswered j (Responded True (JsonData d rt)))
           \<in> set [(1, SetValue ''3''), (2, SubmitConvert),
                  (3, ConvertAnswered 0 (Responded True (JsonData JUndefined ''3.6''))),
                  (4, SetEnableCurrency True), (5, SetCurrencyValue ''5''), (6, SubmitCurrency),
                  (7, CurrencyAnswered 0 (Responded True (JsonData JUndefined ''4.2'')))]
         \<and> t = (3::nat) \<and> (\<exists>u. ''3.6 kilometer'' = rt @ '' '' @ u))"
  using run_both_workflows
    currency_never_in_history [of 0 initial 0 Rejected
      "[(1, SetValue ''3''), (2, SubmitConvert),
        (3, ConvertAnswered 0 (Responded True (JsonData JUndefined ''3.6''))),
        (4, SetEnableCurrency True), (5, SetCurrencyValue ''5''), (6, SubmitCurrency),
        (7, CurrencyAnswered 0 (Responded True (JsonData JUndefined ''4.2'')))]"
      "initial\<lparr>value_in := ''3'', result := ''3.6 kilometer'', enableCurrency := True,
            currencyValue := ''5'', currencyResult := ''4.2 EUR'',
            history := [\<lparr>entry_category = ''Length'', entry_value = ''3'',
                         entry_fromUnit = Some ''meter'', entry_toUnit = Some ''kilometer'',
                         entry_result = ''3.6 kilometer'', entry_timestamp = 3\<rparr>]\<rparr>"
      "\<lparr>entry_category = ''Length'', entry_value = ''3'',
                         entry_fromUnit = Some ''meter'', entry_toUnit = Some ''kilometer'',
                         entry_result = ''3.6 kilometer'', entry_timestamp = 3\<rparr>"]
  by simp

section \<open>The two workflows side by side\<close>

lemma currency_event_frame:
  assumes "ev = SubmitCurrency \<or> ev = CurrencyAnswered i r"
  shows "\<exists>s'. step now s ev = Inr s' \<and> convertSlots s' = convertSlots s"
proof -
  from assms have c: "category (handle s ev) = category s" "result (handle s ev) = result s"
    and h: "convertSlots (handle s ev) = convertSlots s"
    by (auto simp: handleCurrencyConvert_submit_def handleCurrencyConvert_settle_def Let_def
        convertSlots_def split: settlement.splits if_splits)
  then have "step now s ev = Inr (handle s ev)"
    by (simp add: step_def commit_same_category)
  with h show ?thesis by simp
qed

lemma convert_event_frame:
  assumes "ev = SubmitConvert \<or> ev = ConvertAnswered i r"
  shows "\<exists>s'. step now s ev = Inr s' \<and> currencySlots s' = currencySlots s"
proof -
  from assms have c: "category (handle s ev) = category s"
    and h: "currencySlots (handle s ev) = currencySlots s"
    by (auto simp: handleConvert_submit_def handleConvert_settle_def Let_def
        currencySlots_def split: settlement.splits if_splits)
  obtain s' where s': "step now s ev = Inr s'" using step_total by blast
  then have "currencySlots s' = currencySlots (handle s ev)"
    using commit_frame [of now s "handle s ev" s'] by (simp add: step_def currencySlots_def)
  with s' h show ?thesis by simp
qed

lemma step_CurrencyAnswered:
  assumes "i < length (pendingCurrency s)"
  shows "step now s (CurrencyAnswered i r) = Inr (handleCurrencyConvert_settle i r s)"
proof -
  have "category (handleCurrencyConvert_settle i r s) = category s"
    "result (handleCurrencyConvert_settle i r s) = result s"
    by (simp_all add: handleCurrencyConvert_settle_def Let_def split: settlement.splits)
  with assms show ?thesis by (simp add: step_def commit_same_category)
qed

text \<open>What an answer to a currency conversion leaves in \<open>error\<close>, for every outcome.\<close>

lemma currency_answer_error:
  assumes "i < length (pendingCurrency s)"
  shows "\<exists>s'. step now s (CurrencyAnswered i r) = Inr s' \<and> \<not> isLoading s'
          \<and> (r = Rejected \<or> r = Responded ok Unparseable \<or> r = Responded ok JsonNull \<longrightarrow>
                error s' = JStr ''Could not reach backend for currency.'')
          \<and> (r = Responded False (JsonData d rt) \<longrightarrow>
                error s' = js_or_val d ''Currency conversion failed.'' \<and> currencyResult s' = [])
          \<and> (r = Responded True (JsonData d rt) \<longrightarrow> error s' = error s)"
proof -
  define s' where "s' = handleCurrencyConvert_settle i r s"
  have st: "step now s (CurrencyAnswered i r) = Inr s'"
    unfolding s'_def by (rule step_CurrencyAnswered [OF assms])
  have l: "\<not> isLoading s'"
    by (simp add: s'_def handleCurrencyConvert_settle_flight)
  have t: "error s' = JStr ''Could not reach backend for currency.''"
    if "r = Rejected \<or> r = Responded ok Unparseable \<or> r = Responded ok JsonNull"
    using that
    by (auto simp: s'_def handleCurrencyConvert_settle_def settleCurrency_def currencyTry_def)
  have d: "error s' = js_or_val d ''Currency conversion failed.'' \<and> currencyResult s' = []"
    if "r = Responded False (JsonData d rt)"
    using that
    by (simp add: s'_def handleCurrencyConvert_settle_def settleCurrency_def currencyTry_def)
  have k: "error s' = error s" if "r = Responded True (JsonData d rt)"
    using that
    by (simp add: s'_def handleCurrencyConvert_settle_def settleCurrency_def currencyTry_def)
  from st l t d k show ?thesis by blast
qed

text \<open>
  Claim C7, as amended. A submit or an answer of the currency workflow leaves the fields
  of the standard workflow as they are (category, value, units, result, history, requests
  in flight), and a submit or an answer of the standard workflow leaves the fields of the
  currency workflow as they are. The error message and the loading flag belong to both:
  a submit that is accepted, of either workflow, clears the message and sets the flag;
  every failed request of either workflow (rejected, body not JSON or \<open>null\<close>, status
  not ok) writes its own message over whatever message was there and resets the flag;
  a successful answer leaves the message as it is.
\<close>

theorem workflow_frame:
  "(\<exists>s'. step now s SubmitCurrency = Inr s' \<and> convertSlots s' = convertSlots s)
   \<and> (\<exists>s'. step now s (CurrencyAnswered i r) = Inr s' \<and> convertSlots s' = convertSlots s)
   \<and> (\<exists>s'. step now s SubmitConvert = Inr s' \<and> currencySlots s' = currencySlots s)
   \<and> (\<exists>s'. step now s (ConvertAnswered i r) = Inr s' \<and> currencySlots s' = currencySlots s)
   \<and> (enableCurrency s \<and> \<not> currencyDisabled s \<longrightarrow>
        (\<exists>s'. step now s SubmitCurrency = Inr s' \<and> error s' = JStr [] \<and> isLoading s'))
   \<and> (\<not> convertDisabled s \<longrightarrow>
        (\<exists>s'. step now s SubmitConvert = Inr s' \<and> error s' = JStr [] \<and> isLoading s'))
   \<and> (i < length (pendingCurrency s) \<longrightarrow>
        (\<exists>s'. step now s (CurrencyAnswered i r) = Inr s' \<and> \<not> isLoading s'
           \<and> (r = Rejected \<or> r = Responded ok Unparseable \<or> r = Responded ok JsonNull \<longrightarrow>
                 error s' = JStr ''Could not reach backend for currency.'')
           \<and> (r = Responded False (JsonData d rt) \<longrightarrow>
                 error s' = js_or_val d ''Currency conversion failed.'')
           \<and> (r = Responded True (JsonData d rt) \<longrightarrow> error s' = error s)))
   \<and> (i < length (pendingConvert s) \<longrightarrow>
        (\<exists>s'. step now s (ConvertAnswered i r) = Inr s' \<and> \<not> isLoading s'
           \<and> (r = Rejected \<or> r = Responded ok Unparseable \<or> r = Responded ok JsonNull \<longrightarrow>
                 error s' = JStr ''Could not reach backend.'')
           \<and> (r = Responded False (JsonData d rt) \<longrightarrow>
                 error s' = js_or_val d ''Conversion failed.'')
           \<and> (r = Responded True (JsonData d rt) \<longrightarrow> error s' = error s)))"
proof (intro conjI impI)
  show "\<exists>s'. step now s SubmitCurrency = Inr s' \<and> convertSlots s' = convertSlots s"
    by (rule currency_event_frame) simp
  show "\<exists>s'. step now s (CurrencyAnswered i r) = Inr s' \<and> convertSlots s' = convertSlots s"
    by (rule currency_event_frame) simp
  show "\<exists>s'. step now s SubmitConvert = Inr s' \<and> currencySlots s' = currencySlots s"
    by (rule convert_event_frame) simp
  show "\<exists>s'. step now s (ConvertAnswered i r) = Inr s' \<and> currencySlots s' = currencySlots s"
    by (rule convert_event_frame) simp
next
  assume "enableCurrency s \<and> \<not> currencyDisabled s"
  then show "\<exists>s'. step now s SubmitCurrency = Inr s' \<and> error s' = JStr [] \<and> isLoading s'"
    by (simp add: step_def commit_same_category handleCurrencyConvert_submit_def)
next
  assume nd: "\<not> convertDisabled s"
  obtain s' where s': "step now s SubmitConvert = Inr s'" using step_total by blast
  then have "error s' = error (handleConvert_submit s) \<and> isLoading s' = isLoading (handleConvert_submit s)"
    using commit_frame [of now s "handleConvert_submit s" s'] by (simp add: step_def nd)
  with s' show "\<exists>s'. step now s SubmitConvert = Inr s' \<and> error s' = JStr [] \<and> isLoading s'"
    by (simp add: handleConvert_submit_def)
next
  assume a: "i < length (pendingCurrency s)"
  from currency_answer_error [OF a, of now r ok d rt]
  show "\<exists>s'. step now s (CurrencyAnswered i r) = Inr s' \<and> \<not> isLoading s'
           \<and> (r = Rejected \<or> r = Responded ok Unparseable \<or> r = Responded ok JsonNull \<longrightarrow>
                 error s' = JStr ''Could not reach backend for currency.'')
           \<and> (r = Responded False (JsonData d rt) \<longrightarrow>
                 error s' = js_or_val d ''Currency conversion failed.'')
           \<and> (r = Responded True (JsonData d rt) \<longrightarrow> error s' = error s)"
    by blast
next
  assume a: "i < length (pendingConvert s)"
  from convert_answer_error [OF a, of now r ok d rt]
  show "\<exists>s'. step now s (ConvertAnswered i r) = Inr s' \<and> \<not> isLoading s'
           \<and> (r = Rejected \<or> r = Responded ok Unparseable \<or> r = Responded ok JsonNull \<longrightarrow>
                 error s' = JStr ''Could not reach backend.'')
           \<and> (r = Responded False (JsonData d rt) \<longrightarrow>
                 error s' = js_or_val d ''Conversion failed.'')
           \<and> (r = Responded True (JsonData d rt) \<longrightarrow> error s' = error s)"
    by blast
qed

theorem workflow_frame_witness:
  "(\<exists>s'. step 6 (initial\<lparr>value_in := ''3'', error := JStr ''bad unit'', enableCurrency := True,
                     currencyValue := ''5''\<rparr>) SubmitCurrency = Inr s'
         \<and> error s' = JStr [] \<and> isLoading s')
   \<and> (\<exists>s'. step 6 (initial\<lparr>value_in := ''3'', error := JStr ''bad unit'', enableCurrency := True,
                     currencyValue := ''5''\<rparr>) SubmitCurrency = Inr s'
         \<and> convertSlots s' = convertSlots (initial\<lparr>value_in := ''3'', error := JStr ''bad unit'',
                     enableCurrency := True, currencyValue := ''5''\<rparr>))
   \<and> (\<exists>s'. step 6 (initial\<lparr>value_in := ''3'', error := JStr ''bad unit'', enableCurrency := True,
                     currencyValue := ''5''\<rparr>) SubmitConvert = Inr s'
         \<and> error s' = JStr [] \<and> isLoading s')
   \<and> (\<exists>s'. step 6 (initial\<lparr>value_in := ''3'', isLoading := True, pendingConvert := [Some ''kilometer'']\<rparr>)
              (ConvertAnswered 0 Rejected) = Inr s'
         \<and> error s' = JStr ''Could not reach backend.'' \<and> \<not> isLoading s')
   \<and> (\<exists>s'. step 6 (initial\<lparr>value_in := ''3'', isLoading := True, pendingConvert := [Some ''kilometer'']\<rparr>)
              (ConvertAnswered 0 (Responded False (JsonData (JStr ''bad unit'') ''undefined''))) = Inr s'
         \<and> error s' = JStr ''bad unit'' \<and> \<not> isLoading s')
   \<and> (\<exists>s'. step 6 (initial\<lparr>value_in := ''3'', isLoading := True, pendingConvert := [Some ''kilometer'']\<rparr>)
              (ConvertAnswered 0 (Responded True (JsonData JUndefined ''3.6''))) = Inr s'
         \<and> error s' = JStr [] \<and> \<not> isLoading s')
   \<and> (\<exists>s'. step 6 (initial\<lparr>value_in := ''3'', enableCurrency := True, currencyValue := ''5'',
                     isLoading := True, pendingCurrency := [''EUR'']\<rparr>)
              (CurrencyAnswered 0 Rejected) = Inr s'
         \<and> error s' = JStr ''Could not reach backend for currency.'' \<and> \<not> isLoading s')
   \<and> (\<exists>s'. step 6 (initial\<lparr>value_in := ''3'', enableCurrency := True, currencyValue := ''5'',
                     isLoading := True, pendingCurrency := [''EUR'']\<rparr>)
              (CurrencyAnswered 0 (Responded False (JsonData (JStr ''bad currency'') ''undefined''))) = Inr s'
         \<and> error s' = JStr ''bad currency'' \<and> \<not> isLoading s')
   \<and> (\<exists>s'. step 6 (initial\<lparr>value_in := ''3'', enableCurrency := True, currencyValue := ''5'',
                     isLoading := True, pendingCurrency := [''EUR'']\<rparr>)
              (CurrencyAnswered 0 (Responded False (JsonData JUndefined ''undefined''))) = Inr s'
         \<and> error s' = JStr ''Currency conversion failed.'' \<and> \<not> isLoading s')
   \<and> (\<exists>s'. step 6 (initial\<lparr>value_in := ''3'', enableCurrency := True, currencyValue := ''5'',
                     isLoading := True, pendingCurrency := [''EUR'']\<rparr>)
              (CurrencyAnswered 0 (Responded True (JsonData JUndefined ''4.2''))) = Inr s'
         \<and> error s' = JStr [] \<and> \<not> isLoading s')"
proof -
  define sa where "sa = initial\<lparr>value_in := ''3'', error := JStr ''bad unit'', enableCurrency := True,
                     currencyValue := ''5''\<rparr>"
  define sb where "sb = initial\<lparr>value_in := ''3'', isLoading := True, pendingConvert := [Some ''kilometer'']\<rparr>"
  define sc where "sc = initial\<lparr>value_in := ''3'', enableCurrency := True, currencyValue := ''5'',
                     isLoading := True, pendingCurrency := [''EUR'']\<rparr>"
  have ha: "enableCurrency sa \<and> \<not> currencyDisabled sa" "\<not> convertDisabled sa"
    by (simp_all add: sa_def initial_def currencyDisabled_def convertDisabled_def truthy_def)
  have hb: "0 < length (pendingConvert sb)" "error sb = JStr []"
    by (simp_all add: sb_def initial_def)
  have hc: "0 < length (pendingCurrency sc)" "error sc = JStr []"
    by (simp_all add: sc_def initial_def)
  have 1: "\<exists>s'. step 6 sa SubmitCurrency = Inr s' \<and> error s' = JStr [] \<and> isLoading s'"
    using workflow_frame [of 6 sa 0 Rejected False JUndefined "[]"] ha by blast
  have 2: "\<exists>s'. step 6 sa SubmitCurrency = Inr s' \<and> convertSlots s' = convertSlots sa"
    using workflow_frame [of 6 sa 0 Rejected False JUndefined "[]"] by blast
  have 3: "\<exists>s'. step 6 sa SubmitConvert = Inr s' \<and> error s' = JStr [] \<and> isLoading s'"
    using workflow_frame [of 6 sa 0 Rejected False JUndefined "[]"] ha by blast
  have 4: "\<exists>s'. step 6 sb (ConvertAnswered 0 Rejected) = Inr s'
         \<and> error s' = JStr ''Could not reach backend.'' \<and> \<not> isLoading s'"
    using workflow_frame [of 6 sb 0 Rejected False JUndefined "[]"] hb by blast
  have 5: "\<exists>s'. step 6 sb (ConvertAnswered 0 (Responded False (JsonData (JStr ''bad unit'') ''undefined''))) = Inr s'
         \<and> error s' = JStr ''bad unit'' \<and> \<not> isLoading s'"
    using workflow_frame [of 6 sb 0 "Responded False (JsonData (JStr ''bad unit'') ''undefined'')"
        False "JStr ''bad unit''" "''undefined''"] hb
    by (auto simp: js_or_val_def truthy_def)
  have 6: "\<exists>s'. step 6 sb (ConvertAnswered 0 (Responded True (JsonData JUndefined ''3.6''))) = Inr s'
         \<and> error s' = JStr [] \<and> \<not> isLoading s'"
    using workflow_frame [of 6 sb 0 "Responded True (JsonData JUndefined ''3.6'')"
        False JUndefined "''3.6''"] hb
    by auto
  have 7: "\<exists>s'. step 6 sc (CurrencyAnswered 0 Rejected) = Inr s'
         \<and> error s' = JStr ''Could not reach backend for currency.'' \<and> \<not> isLoading s'"
    using workflow_frame [of 6 sc 0 Rejected False JUndefined "[]"] hc by blast
  have 8: "\<exists>s'. step 6 sc (CurrencyAnswered 0 (Responded False (JsonData (JStr ''bad currency'') ''undefined''))) = Inr s'
         \<and> error s' = JStr ''bad currency'' \<and> \<not> isLoading s'"
    using workflow_frame [of 6 sc 0 "Responded False (JsonData (JStr ''bad currency'') ''undefined'')"
        False "JStr ''bad currency''" "''undefined''"] hc
    by (auto simp: js_or_val_def truthy_def)
  have 9: "\<exists>s'. step 6 sc (CurrencyAnswered 0 (Responded False (JsonData JUndefined ''undefined''))) = Inr s'
         \<and> error s' = JStr ''Currency conversion failed.'' \<and> \<not> isLoading s'"
    using workflow_frame [of 6 sc 0 "Responded False (JsonData JUndefined ''undefined'')"
        False JUndefined "''undefined''"] hc
    by (auto simp: js_or_val_def)
  have 10: "\<exists>s'. step 6 sc (CurrencyAnswered 0 (Responded True (JsonData JUndefined ''4.2''))) = Inr s'
         \<and> error s' = JStr [] \<and> \<not> isLoading s'"
    using workflow_frame [of 6 sc 0 "Responded True (JsonData JUndefined ''4.2'')"
        False JUndefined "''4.2''"] hc
    by auto
  from 1 2 3 4 5 6 7 8 9 10 show ?thesis
    unfolding sa_def sb_def sc_def by blast
qed

text \<open>
  Claim C7 as stated fails: the message of a failed standard conversion is cleared by the
  submit of a currency conversion.
\<close>

theorem shared_error_counterexample:
  "run initial
     [(1, SetValue ''3''), (2, SubmitConvert),
      (3, ConvertAnswered 0 (Responded False (JsonData (JStr ''bad unit'') ''undefined''))),
      (4, SetEnableCurrency True), (5, SetCurrencyValue ''5'')]
   = Inr (initial\<lparr>value_in := ''3'', error := JStr ''bad unit'', enableCurrency := True,
            currencyValue := ''5''\<rparr>)
   \<and> run initial
     [(1, SetValue ''3''), (2, SubmitConvert),
      (3, ConvertAnswered 0 (Responded False (JsonData (JStr ''bad unit'') ''undefined''))),
      (4, SetEnableCurrency True), (5, SetCurrencyValue ''5''), (6, SubmitCurrency)]
   = Inr (initial\<lparr>value_in := ''3'', error := JStr [], enableCurrency := True,
            currencyValue := ''5'', isLoading := True, pendingCurrency := [''EUR'']\<rparr>)"
  by (simp add: run_eval)

text \<open>
  Claim C8, as amended. Both handlers follow the same lifecycle: the same transitions on
  the result slot of the workflow, the error message and the loading flag, and the detail
  of the service passed through. Their generic messages differ: the currency handler says
  \<open>Currency conversion failed.\<close> and \<open>Could not reach backend for currency.\<close>
\<close>

theorem handlers_same_lifecycle:
  "settleConvert u r = requestLifecycle ''Conversion failed.'' ''Could not reach backend.'' (to_text u) r
   \<and> settleCurrency c r =
       requestLifecycle ''Currency conversion failed.'' ''Could not reach backend for currency.'' c r
   \<and> convertView (handleConvert_submit s) = ([], JStr [], True)
   \<and> currencyView (handleCurrencyConvert_submit s) = ([], JStr [], True)
   \<and> convertView (handleConvert_settle i r s)
       = applySettlement (settleConvert (pendingConvert s ! i) r) (convertView s)
   \<and> currencyView (handleCurrencyConvert_settle i r s)
       = applySettlement (settleCurrency (pendingCurrency s ! i) r) (currencyView s)"
proof (intro conjI)
  show "settleConvert u r = requestLifecycle ''Conversion failed.'' ''Could not reach backend.'' (to_text u) r"
    by (simp add: settleConvert_def convertTry_def requestLifecycle_def split: fetch_outcome.splits body.splits)
  show "settleCurrency c r =
       requestLifecycle ''Currency conversion failed.'' ''Could not reach backend for currency.'' c r"
    by (simp add: settleCurrency_def currencyTry_def requestLifecycle_def split: fetch_outcome.splits body.splits)
  show "convertView (handleConvert_submit s) = ([], JStr [], True)"
    by (simp add: convertView_def handleConvert_submit_def)
  show "currencyView (handleCurrencyConvert_submit s) = ([], JStr [], True)"
    by (simp add: currencyView_def handleCurrencyConvert_submit_def)
  show "convertView (handleConvert_settle i r s)
       = applySettlement (settleConvert (pendingConvert s ! i) r) (convertView s)"
    by (simp add: convertView_def handleConvert_settle_def applySettlement_def Let_def
        split: settlement.splits)
  show "currencyView (handleCurrencyConvert_settle i r s)
       = applySettlement (settleCurrency (pendingCurrency s ! i) r) (currencyView s)"
    by (simp add: currencyView_def handleCurrencyConvert_settle_def applySettlement_def Let_def
        split: settlement.splits)
qed

text \<open>
  Claim C8 as stated fails: for the same failures the two handlers give different messages.
\<close>

theorem currency_messages_counterexample:
  "settleCurrency ''EUR'' (Responded False (JsonData JUndefined ''undefined''))
     = ServiceError (JStr ''Currency conversion failed.'')
   \<and> settleConvert (Some ''EUR'') (Responded False (JsonData JUndefined ''undefined''))
     = ServiceError (JStr ''Conversion failed.'')
   \<and> settleCurrency ''EUR'' Rejected = TransportError ''Could not reach backend for currency.''
   \<and> settleConvert (Some ''EUR'') Rejected = TransportError ''Could not reach backend.''
   \<and> ''Currency conversion failed.'' \<noteq> ''Conversion failed.''
   \<and> ''Could not reach backend for currency.'' \<noteq> ''Could not reach backend.''"
  by (simp add: settleCurrency_def currencyTry_def settleConvert_def convertTry_def js_or_val_def)

text \<open>
  Claim C6, as amended. Each workflow has a result slot of its own, which the submit of
  the other does not touch, but both write the one loading flag and the one error
  message. In every state the component can reach at most one request is in flight in
  total, so the two workflows are never both in flight; the flag is set exactly while a
  request of either is in flight, and then both submit buttons are disabled.
\<close>

theorem shared_loading_flag:
  assumes "run initial evs = Inr s"
  shows "length (pendingConvert s) + length (pendingCurrency s) \<le> 1
    \<and> \<not> (pendingConvert s \<noteq> [] \<and> pendingCurrency s \<noteq> [])
    \<and> (isLoading s \<longleftrightarrow> pendingConvert s \<noteq> [] \<or> pendingCurrency s \<noteq> [])
    \<and> (isLoading s \<longrightarrow> convertDisabled s \<and> currencyDisabled s)
    \<and> currencyResult (handleConvert_submit s) = currencyResult s
    \<and> result (handleCurrencyConvert_submit s) = result s
    \<and> isLoading (handleConvert_submit s) = isLoading (handleCurrencyConvert_submit s)
    \<and> error (handleConvert_submit s) = error (handleCurrencyConvert_submit s)"
proof -
  have inv: "inFlightInv s"
    using inFlightInv_initial assms by (rule inFlightInv_run)
  then have l: "length (pendingConvert s) + length (pendingCurrency s) \<le> 1"
    and f: "isLoading s \<longleftrightarrow> pendingConvert s \<noteq> [] \<or> pendingCurrency s \<noteq> []"
    by (simp_all add: inFlightInv_def)
  from l have n: "\<not> (pendingConvert s \<noteq> [] \<and> pendingCurrency s \<noteq> [])"
    by (cases "pendingConvert s"; cases "pendingCurrency s") simp_all
  have d: "isLoading s \<longrightarrow> convertDisabled s \<and> currencyDisabled s"
    by (simp add: convertDisabled_def currencyDisabled_def)
  have h: "currencyResult (handleConvert_submit s) = currencyResult s"
    "result (handleCurrencyConvert_submit s) = result s"
    "isLoading (handleConvert_submit s) = isLoading (handleCurrencyConvert_submit s)"
    "error (handleConvert_submit s) = error (handleCurrencyConvert_submit s)"
    by (simp_all add: handleConvert_submit_def handleCurrencyConvert_submit_def)
  from l n f d h show ?thesis by blast
qed


theorem shared_loading_flag_witness:
  "run initial
     [(1, SetValue ''3''), (2, SetEnableCurrency True), (3, SetCurrencyValue ''5''),
      (4, SubmitCurrency)]
   = Inr (initial\<lparr>value_in := ''3'', enableCurrency := True, currencyValue := ''5'',
            isLoading := True, pendingCurrency := [''EUR'']\<rparr>)
   \<and> convertDisabled (initial\<lparr>value_in := ''3'', enableCurrency := True, currencyValue := ''5'',
            isLoading := True, pendingCurrency := [''EUR'']\<rparr>)
   \<and> currencyDisabled (initial\<lparr>value_in := ''3'', enableCurrency := True, currencyValue := ''5'',
            isLoading := True, pendingCurrency := [''EUR'']\<rparr>)"
  using run_currency_loading shared_loading_flag [OF run_currency_loading]
  by simp

text \<open>
  Claim C6 as stated fails: with a currency request in flight the submit button of the
  standard workflow is disabled and a standard submit sends nothing, so the two workflows
  are not in flight together; the flag that the currency submit set is state of both.
\<close>

theorem shared_loading_counterexample:
  "run initial
     [(1, SetValue ''3''), (2, SetEnableCurrency True), (3, SetCurrencyValue ''5''),
      (4, SubmitCurrency), (5, SubmitConvert)]
   = Inr (initial\<lparr>value_in := ''3'', enableCurrency := True, currencyValue := ''5'',
            isLoading := True, pendingCurrency := [''EUR'']\<rparr>)
   \<and> pendingConvert (initial\<lparr>value_in := ''3'', enableCurrency := True, currencyValue := ''5'',
            isLoading := True, pendingCurrency := [''EUR'']\<rparr>) = []
   \<and> convertDisabled (initial\<lparr>value_in := ''3'', enableCurrency := True, currencyValue := ''5'',
            isLoading := True, pendingCurrency := [''EUR'']\<rparr>)
   \<and> \<not> convertDisabled (initial\<lparr>value_in := ''3'', enableCurrency := True, currencyValue := ''5''\<rparr>)"
  by (simp add: run_eval)

end
